theory Spec2Isabelle
  imports Main "HOL-Library.Word"
begin

unbundle bit_operations_syntax

section \<open>Public keys and their comparison (ssh.go, KeysEqual)\<close>

text \<open>
  A Go \<^verbatim>\<open>[]byte\<close> is a list of 8-bit words. \<^verbatim>\<open>PublicKey\<close> is an interface whose
  declaration is not part of ssh.go; the only thing \<^verbatim>\<open>KeysEqual\<close> uses of it is the
  method \<^verbatim>\<open>Marshal() []byte\<close>, which is therefore a parameter of the model. An
  interface value may be \<^verbatim>\<open>nil\<close>: a key argument is a \<open>'k option\<close>, \<open>None\<close> being
  \<^verbatim>\<open>nil\<close>.
\<close>

type_synonym byte = "8 word"

text \<open>
  \<^verbatim>\<open>crypto/subtle\<close> of the Go standard library, which ssh.go imports:
  \<^verbatim>\<open>
  func ConstantTimeByteEq(x, y uint8) int {
      return int((uint32(x^y) - 1) >> 31)
  }
  func ConstantTimeCompare(x, y []byte) int {
      if len(x) != len(y) { return 0 }
      var v byte
      for i := 0; i < len(x); i++ { v |= x[i] ^ y[i] }
      return ConstantTimeByteEq(v, 0)
  }
  \<close>
  The subtraction is on \<^verbatim>\<open>uint32\<close> and wraps at 0.
\<close>

definition ConstantTimeByteEq :: "byte \<Rightarrow> byte \<Rightarrow> int" where
  "ConstantTimeByteEq x y = uint (drop_bit 31 ((ucast (x XOR y) :: 32 word) - 1))"

definition ConstantTimeCompare_loop :: "byte list \<Rightarrow> byte list \<Rightarrow> byte" where
  "ConstantTimeCompare_loop x y =
     fold (\<lambda>i v. v OR (x ! i XOR y ! i)) [0..<length x] 0"

definition ConstantTimeCompare :: "byte list \<Rightarrow> byte list \<Rightarrow> int" where
  "ConstantTimeCompare x y =
     (if length x \<noteq> length y then 0
      else ConstantTimeByteEq (ConstantTimeCompare_loop x y) 0)"

fun KeysEqual :: "('k \<Rightarrow> byte list) \<Rightarrow> 'k option \<Rightarrow> 'k option \<Rightarrow> bool" where
  "KeysEqual Marshal None bk = False"
| "KeysEqual Marshal ak None = False"
| "KeysEqual Marshal (Some ak) (Some bk) =
     (let a = Marshal ak; b = Marshal bk
      in length a = length b \<and> ConstantTimeCompare a b = 1)"

subsection \<open>The comparison with what an observer of its running time can see\<close>

text \<open>
  Running time is not a value of the program. What can be stated of the code is the
  sequence of things its running time can depend on: the outcome of every condition it
  branches on (\<open>Branch\<close>, with the value of the condition as the source writes it) and
  every slice index it reads (\<open>Index\<close>). The byte operations \<^verbatim>\<open>^\<close>, \<^verbatim>\<open>|=\<close>,
  \<^verbatim>\<open>-\<close> and \<^verbatim>\<open>>>\<close> branch on nothing. The functions below are the ones above,
  returning this sequence beside their result.
\<close>

datatype obs = Branch bool | Index nat

definition ConstantTimeCompare_loop_obs :: "byte list \<Rightarrow> byte list \<Rightarrow> byte \<times> obs list" where
  "ConstantTimeCompare_loop_obs x y =
     fold (\<lambda>i (v, t). (v OR (x ! i XOR y ! i), t @ [Branch True, Index i]))
       [0..<length x] (0, [])"

definition ConstantTimeCompare_obs :: "byte list \<Rightarrow> byte list \<Rightarrow> int \<times> obs list" where
  "ConstantTimeCompare_obs x y =
     (if length x \<noteq> length y then (0, [Branch True])
      else case ConstantTimeCompare_loop_obs x y of
             (v, t) \<Rightarrow> (ConstantTimeByteEq v 0, Branch False # t @ [Branch False]))"

fun KeysEqual_obs :: "('k \<Rightarrow> byte list) \<Rightarrow> 'k option \<Rightarrow> 'k option \<Rightarrow> bool \<times> obs list" where
  "KeysEqual_obs Marshal None bk = (False, [Branch True])"
| "KeysEqual_obs Marshal (Some ak) None = (False, [Branch False, Branch True])"
| "KeysEqual_obs Marshal (Some ak) (Some bk) =
     (let a = Marshal ak; b = Marshal bk
      in if length a = length b
         then case ConstantTimeCompare_obs a b of
                (r, t) \<Rightarrow> (r = 1, [Branch False, Branch False, Branch True] @ t)
         else (False, [Branch False, Branch False, Branch False]))"

section \<open>Signals\<close>

text \<open>
  \<^verbatim>\<open>type Signal string\<close>: a signal is a string, and the value sent for it is that
  string. The \<^verbatim>\<open>const\<close> block declares thirteen of them.
\<close>

type_synonym Signal = string

definition SIGABRT :: Signal where
  "SIGABRT = ''ABRT''"

definition SIGALRM :: Signal where
  "SIGALRM = ''ALRM''"

definition SIGFPE :: Signal where
  "SIGFPE = ''FPE''"

definition SIGHUP :: Signal where
  "SIGHUP = ''HUP''"

definition SIGILL :: Signal where
  "SIGILL = ''ILL''"

definition SIGINT :: Signal where
  "SIGINT = ''INT''"

definition SIGKILL :: Signal where
  "SIGKILL = ''KILL''"

definition SIGPIPE :: Signal where
  "SIGPIPE = ''PIPE''"

definition SIGQUIT :: Signal where
  "SIGQUIT = ''QUIT''"

definition SIGSEGV :: Signal where
  "SIGSEGV = ''SEGV''"

definition SIGTERM :: Signal where
  "SIGTERM = ''TERM''"

definition SIGUSR1 :: Signal where
  "SIGUSR1 = ''USR1''"

definition SIGUSR2 :: Signal where
  "SIGUSR2 = ''USR2''"

text \<open>The constants of the block, in the order of their declaration.\<close>

definition Signals :: "Signal list" where
  "Signals =
    [SIGABRT, SIGALRM, SIGFPE, SIGHUP, SIGILL, SIGINT, SIGKILL,
     SIGPIPE, SIGQUIT, SIGSEGV, SIGTERM, SIGUSR1, SIGUSR2]"

section \<open>Windows and PTYs\<close>

text \<open>
  \<^verbatim>\<open>type Window struct { Width int; Height int }\<close> and
  \<^verbatim>\<open>type Pty struct { Window Window }\<close>. Go's \<^verbatim>\<open>int\<close> is signed; nothing here
  depends on its width, so it is \<open>int\<close>. ssh.go declares no function that builds,
  checks or changes a \<^verbatim>\<open>Window\<close>.
\<close>

record Window =
  Width :: int
  Height :: int

record Pty =
  Window :: Window

section \<open>The default handler\<close>



section \<open>Starting a server (Serve, ListenAndServe)\<close>

text \<open>
  \<^verbatim>\<open>Server\<close> is declared outside ssh.go. The two composite literals of ssh.go show
  its fields \<^verbatim>\<open>Addr\<close> and \<^verbatim>\<open>Handler\<close>; its other fields are the record's
  extension, and \<open>zero\<close> is their zero value, which a composite literal gives to every
  field it does not name (\<^verbatim>\<open>""\<close> for \<^verbatim>\<open>Addr\<close>).
\<close>

record 'h Server =
  Addr :: string
  Handler :: 'h

definition Server_literal :: "string \<Rightarrow> 'h \<Rightarrow> 'z \<Rightarrow> ('h, 'z) Server_scheme" where
  "Server_literal addr handler zero = \<lparr>Addr = addr, Handler = handler, \<dots> = zero\<rparr>"

text \<open>
  A Go \<^verbatim>\<open>error\<close> is an \<open>'e option\<close>, \<open>None\<close> being \<^verbatim>\<open>nil\<close>. The methods
  \<^verbatim>\<open>srv.SetOption\<close>, \<^verbatim>\<open>srv.Serve\<close> and \<^verbatim>\<open>srv.ListenAndServe\<close> are defined outside
  ssh.go and are parameters: \<open>SetOption\<close> gets the server and an option and returns the
  server as the option left it, with the option's error; the two serving methods run
  an accept loop, so they return an error value or never return.
\<close>

datatype 'e outcome = Returns "'e option" | Never_returns

text \<open>The calls made on the server, in the order they are made.\<close>

datatype ('o, 's) call = SetOption_call 'o | Serve_call 's | ListenAndServe_call 's

text \<open>
  \<^verbatim>\<open>for _, option := range options { if err := srv.SetOption(option); err != nil { return err } }\<close>:
  \<open>Inl err\<close> is the early return, \<open>Inr srv\<close> the server when the loop has ended;
  beside it, the options that \<^verbatim>\<open>SetOption\<close> was called with, in the order of the calls.
\<close>

fun options_loop ::
  "('s \<Rightarrow> 'o \<Rightarrow> 's \<times> 'e option) \<Rightarrow> 's \<Rightarrow> 'o list \<Rightarrow> ('e + 's) \<times> 'o list" where
  "options_loop SetOption srv [] = (Inr srv, [])"
| "options_loop SetOption srv (opt # options) =
     (case SetOption srv opt of
        (srv', Some err) \<Rightarrow> (Inl err, [opt])
      | (srv', None) \<Rightarrow>
          (case options_loop SetOption srv' options of
             (r, applied) \<Rightarrow> (r, opt # applied)))"

definition Serve ::
  "(('h, 'z) Server_scheme \<Rightarrow> 'o \<Rightarrow> ('h, 'z) Server_scheme \<times> 'e option) \<Rightarrow>
   (('h, 'z) Server_scheme \<Rightarrow> 'l \<Rightarrow> 'e outcome) \<Rightarrow> 'z \<Rightarrow>
   'l \<Rightarrow> 'h \<Rightarrow> 'o list \<Rightarrow> 'e outcome \<times> ('o, ('h, 'z) Server_scheme) call list" where
  "Serve SetOption srvServe zero l handler options =
     (case options_loop SetOption (Server_literal [] handler zero) options of
        (Inl err, applied) \<Rightarrow> (Returns (Some err), map SetOption_call applied)
      | (Inr srv, applied) \<Rightarrow>
          (srvServe srv l, map SetOption_call applied @ [Serve_call srv]))"

definition ListenAndServe ::
  "(('h, 'z) Server_scheme \<Rightarrow> 'o \<Rightarrow> ('h, 'z) Server_scheme \<times> 'e option) \<Rightarrow>
   (('h, 'z) Server_scheme \<Rightarrow> 'e outcome) \<Rightarrow> 'z \<Rightarrow>
   string \<Rightarrow> 'h \<Rightarrow> 'o list \<Rightarrow> 'e outcome \<times> ('o, ('h, 'z) Server_scheme) call list" where
  "ListenAndServe SetOption srvListenAndServe zero addr handler options =
     (case options_loop SetOption (Server_literal addr handler zero) options of
        (Inl err, applied) \<Rightarrow> (Returns (Some err), map SetOption_call applied)
      | (Inr srv, applied) \<Rightarrow>
          (srvListenAndServe srv, map SetOption_call applied @ [ListenAndServe_call srv]))"

text \<open>
  Modelled from the spec: the method \<^verbatim>\<open>Server.ListenAndServe\<close>, which ssh.go calls
  and does not define. The specification says of listening only that a listener is
  opened on the address and \<^verbatim>\<open>Serve\<close> is then called, and that a listener that
  cannot be bound is a startup error returned to the caller. \<open>listen\<close> is the opening
  of the listener, which fails (\<open>Inl\<close>) or gives the listener.
\<close>

definition Server_ListenAndServe ::
  "(string \<Rightarrow> 'e + 'l) \<Rightarrow> (('h, 'z) Server_scheme \<Rightarrow> 'l \<Rightarrow> 'e outcome) \<Rightarrow>
   ('h, 'z) Server_scheme \<Rightarrow> 'e outcome" where
  "Server_ListenAndServe listen srvServe srv =
     (case listen (Addr srv) of
        Inl err \<Rightarrow> Returns (Some err)
      | Inr l \<Rightarrow> srvServe srv l)"

text \<open>
  The specification's description of \<^verbatim>\<open>ListenAndServe\<close>, in its words: open a
  listener on \<open>addr\<close>, then call \<^verbatim>\<open>Serve\<close> with the handler and the options.
\<close>

definition ListenAndServe_spec ::
  "(string \<Rightarrow> 'e + 'l) \<Rightarrow>
   (('h, 'z) Server_scheme \<Rightarrow> 'o \<Rightarrow> ('h, 'z) Server_scheme \<times> 'e option) \<Rightarrow>
   (('h, 'z) Server_scheme \<Rightarrow> 'l \<Rightarrow> 'e outcome) \<Rightarrow> 'z \<Rightarrow>
   string \<Rightarrow> 'h \<Rightarrow> 'o list \<Rightarrow> 'e outcome" where
  "ListenAndServe_spec listen SetOption srvServe zero addr handler options =
     (case listen addr of
        Inl err \<Rightarrow> Returns (Some err)
      | Inr l \<Rightarrow> fst (Serve SetOption srvServe zero l handler options))"

text \<open>
  What "the options are applied in the order given" means, without the loop: the
  server after each option of a list has been applied to it in turn, and that each
  of them returned no error there.
\<close>

fun after_options :: "('s \<Rightarrow> 'o \<Rightarrow> 's \<times> 'e option) \<Rightarrow> 's \<Rightarrow> 'o list \<Rightarrow> 's" where
  "after_options SetOption srv [] = srv"
| "after_options SetOption srv (opt # options) =
     after_options SetOption (fst (SetOption srv opt)) options"

fun options_ok :: "('s \<Rightarrow> 'o \<Rightarrow> 's \<times> 'e option) \<Rightarrow> 's \<Rightarrow> 'o list \<Rightarrow> bool" where
  "options_ok SetOption srv [] = True"
| "options_ok SetOption srv (opt # options) =
     (snd (SetOption srv opt) = None \<and> options_ok SetOption (fst (SetOption srv opt)) options)"

subsection \<open>An instance of the parameters\<close>

text \<open>
  Concrete methods to run the two functions on: handlers, errors and addresses are
  strings and a listener is a number. An option either sets the handler or is
  invalid; \<open>demo_SetAddr\<close> is an option that sets the address to listen on. Only
  \<^verbatim>\<open>:22\<close> can be listened on, and serving returns \<^verbatim>\<open>nil\<close> when the listener is
  closed.
\<close>

definition demo_SetOption :: "string Server \<Rightarrow> string option \<Rightarrow> string Server \<times> string option" where
  "demo_SetOption srv opt =
     (case opt of
        Some h \<Rightarrow> (srv\<lparr>Handler := h\<rparr>, None)
      | None \<Rightarrow> (srv, Some ''invalid option''))"

definition demo_SetAddr :: "string Server \<Rightarrow> string \<Rightarrow> string Server \<times> string option" where
  "demo_SetAddr srv a = (srv\<lparr>Addr := a\<rparr>, None)"

definition demo_listen :: "string \<Rightarrow> string + nat" where
  "demo_listen a = (if a = '':22'' then Inr 7 else Inl ''address already in use'')"

definition demo_srvServe :: "string Server \<Rightarrow> nat \<Rightarrow> string outcome" where
  "demo_srvServe srv l = Returns None"

section \<open>What the comparison computes\<close>

lemma unat_ucast_byte: "unat (ucast (v::byte) :: 32 word) = unat v"
proof -
  have "unat v < 2 ^ 32"
    using unsigned_less [of v, where ?'a = nat] by simp
  then show ?thesis
    by (simp add: unsigned_ucast_eq take_bit_nat_eq_self)
qed

lemma ucast_byte_eq_0: "(ucast (v::byte) :: 32 word) = 0 \<longleftrightarrow> v = 0"
  by (simp add: word_unat_eq_iff [where 'a = 32] unat_ucast_byte unat_eq_zero)

lemma sign_bit_of_pred:
  assumes "v \<noteq> 0"
  shows "drop_bit 31 ((ucast (v::byte) :: 32 word) - 1) = 0"
proof -
  let ?w = "ucast v :: 32 word"
  have nz: "?w \<noteq> 0"
    using assms by (simp add: ucast_byte_eq_0)
  have "unat (?w - 1) = unat v - 1"
    using nz by (simp add: unat_minus_one unat_ucast_byte)
  moreover have "unat v < 256"
    using unsigned_less [of v, where ?'a = nat] by simp
  ultimately have "unat (?w - 1) < 2 ^ 31"
    by simp
  then have "drop_bit 31 (unat (?w - 1)) = 0"
    by (simp add: drop_bit_eq_div)
  then have "unat (drop_bit 31 (?w - 1)) = 0"
    by (simp only: unat_drop_bit_eq)
  then show ?thesis
    by (simp add: unat_eq_zero)
qed

lemma ConstantTimeByteEq_zero:
  "ConstantTimeByteEq v 0 = (if v = 0 then 1 else 0)"
  by (simp add: ConstantTimeByteEq_def sign_bit_of_pred)

lemma fold_OR_zero:
  "fold (\<lambda>i v. v OR f i) is (v0::byte) = 0 \<longleftrightarrow> v0 = 0 \<and> (\<forall>i\<in>set is. f i = 0)"
  by (induction "is" arbitrary: v0) (auto simp: or_eq_0_iff)

lemma xor_byte_zero: "(a::byte) XOR b = 0 \<longleftrightarrow> a = b"
proof
  assume h: "a XOR b = 0"
  have "b = a XOR (a XOR b)"
    by (simp flip: xor.assoc)
  then show "a = b"
    using h by simp
qed simp

lemma ConstantTimeCompare_loop_zero:
  assumes len: "length x = length y"
  shows "ConstantTimeCompare_loop x y = 0 \<longleftrightarrow> x = y"
proof -
  have "ConstantTimeCompare_loop x y = 0 \<longleftrightarrow> (\<forall>i<length x. x ! i XOR y ! i = 0)"
    unfolding ConstantTimeCompare_loop_def fold_OR_zero by auto
  also have "\<dots> \<longleftrightarrow> (\<forall>i<length x. x ! i = y ! i)"
    by (simp only: xor_byte_zero)
  also have "\<dots> \<longleftrightarrow> x = y"
    using len by (simp add: list_eq_iff_nth_eq)
  finally show ?thesis .
qed

lemma ConstantTimeCompare_eq: "ConstantTimeCompare x y = (if x = y then 1 else 0)"
  by (cases "length x = length y")
    (auto simp: ConstantTimeCompare_def ConstantTimeByteEq_zero ConstantTimeCompare_loop_zero)

lemma KeysEqual_Some:
  "KeysEqual Marshal (Some ak) (Some bk) \<longleftrightarrow> Marshal ak = Marshal bk"
  by (auto simp: ConstantTimeCompare_eq)

text \<open>
  C1. \<^verbatim>\<open>KeysEqual\<close> returns false whenever either argument is nil, also when both
  are: an absent key is equal to nothing.
\<close>

theorem KeysEqual_nil:
  "ak = None \<or> bk = None \<Longrightarrow> \<not> KeysEqual Marshal ak bk"
  by (cases ak; cases bk) simp_all

theorem KeysEqual_nil_witness:
  "((None :: byte list option) = None \<or> (None :: byte list option) = None)
   \<and> \<not> KeysEqual (\<lambda>k. k) None (None :: byte list option)
   \<and> \<not> KeysEqual (\<lambda>k. k) None (Some [1, 2])
   \<and> \<not> KeysEqual (\<lambda>k. k) (Some [1, 2]) None"
  using KeysEqual_nil [of None None "\<lambda>k. k"]
    KeysEqual_nil [of None "Some [1, 2]" "\<lambda>k. k"]
    KeysEqual_nil [of "Some [1, 2]" None "\<lambda>k. k"]
  by simp

text \<open>
  C7. A key that is not nil is equal to itself: \<^verbatim>\<open>KeysEqual(k, k)\<close> is true.
\<close>

theorem KeysEqual_refl:
  "KeysEqual Marshal (Some k) (Some k)"
  by (simp only: KeysEqual_Some)

text \<open>
  C10. \<^verbatim>\<open>KeysEqual(a, b)\<close> is true exactly when neither key is nil and the two
  serializations are the same byte sequence. So it is symmetric, and keys whose
  serializations differ in length are never equal.
\<close>

theorem KeysEqual_iff:
  "(KeysEqual Marshal ak bk \<longleftrightarrow>
      ak \<noteq> None \<and> bk \<noteq> None \<and> map_option Marshal ak = map_option Marshal bk)
   \<and> KeysEqual Marshal ak bk = KeysEqual Marshal bk ak
   \<and> (\<forall>a b. length (Marshal a) \<noteq> length (Marshal b) \<longrightarrow>
        \<not> KeysEqual Marshal (Some a) (Some b))"
proof -
  have iff: "KeysEqual Marshal p q \<longleftrightarrow>
      p \<noteq> None \<and> q \<noteq> None \<and> map_option Marshal p = map_option Marshal q" for p q
    by (cases p; cases q) (simp_all add: KeysEqual_Some del: KeysEqual.simps(3))
  have sym: "KeysEqual Marshal ak bk = KeysEqual Marshal bk ak"
    unfolding iff by auto
  have len: "\<not> KeysEqual Marshal (Some a) (Some b)"
    if "length (Marshal a) \<noteq> length (Marshal b)" for a b
    using that unfolding KeysEqual_Some by auto
  from iff sym len show ?thesis
    by blast
qed

theorem KeysEqual_iff_witness:
  "KeysEqual (\<lambda>k. k) (Some [1, 2 :: byte]) (Some [1, 2])
   \<and> \<not> KeysEqual (\<lambda>k. k) (Some [1, 2 :: byte]) (Some [1, 3])
   \<and> length [1, 2 :: byte] \<noteq> length [1, 2, 3 :: byte]
   \<and> \<not> KeysEqual (\<lambda>k. k) (Some [1, 2 :: byte]) (Some [1, 2, 3])"
  using KeysEqual_iff [of "\<lambda>k. k" "Some [1, 2]" "Some [1, 2]"]
    KeysEqual_iff [of "\<lambda>k. k" "Some [1, 2]" "Some [1, 3]"]
  by simp

section \<open>What an observer of the running time sees\<close>

lemma fold_obs:
  "fold (\<lambda>i (v, t). (v OR f i, t @ g i)) is (v0::byte, t0) =
     (fold (\<lambda>i v. v OR f i) is v0, t0 @ concat (map g is))"
  by (induction "is" arbitrary: v0 t0) simp_all

lemma ConstantTimeCompare_loop_obs_eq:
  "ConstantTimeCompare_loop_obs x y =
     (ConstantTimeCompare_loop x y, concat (map (\<lambda>i. [Branch True, Index i]) [0..<length x]))"
  by (simp add: ConstantTimeCompare_loop_obs_def ConstantTimeCompare_loop_def fold_obs)

lemma ConstantTimeCompare_obs_eq:
  "ConstantTimeCompare_obs x y =
     (ConstantTimeCompare x y,
      if length x \<noteq> length y then [Branch True]
      else Branch False # concat (map (\<lambda>i. [Branch True, Index i]) [0..<length x]) @ [Branch False])"
  by (simp add: ConstantTimeCompare_obs_def ConstantTimeCompare_def ConstantTimeCompare_loop_obs_eq)

lemma KeysEqual_obs_result: "fst (KeysEqual_obs Marshal ak bk) = KeysEqual Marshal ak bk"
  by (cases ak; cases bk) (auto simp: ConstantTimeCompare_obs_eq Let_def)

text \<open>
  C2. For two keys that are not nil, the comparison of their serializations is
  constant-time: the conditions branched on and the indices read are the same for any
  two pairs of serializations of the same lengths, whether and wherever the bytes
  differ. The length test comes first, before the comparison body and in addition to
  it: when the lengths differ nothing more is done, and when they agree the body runs
  over every index.
\<close>

theorem KeysEqual_constant_time:
  assumes "length (Marshal a) = length (Marshal a')"
    and "length (Marshal b) = length (Marshal b')"
  shows "snd (KeysEqual_obs Marshal (Some a) (Some b)) =
           snd (KeysEqual_obs Marshal (Some a') (Some b'))
       \<and> fst (KeysEqual_obs Marshal (Some a) (Some b)) = KeysEqual Marshal (Some a) (Some b)
       \<and> snd (KeysEqual_obs Marshal (Some a) (Some b)) =
           [Branch False, Branch False, Branch (length (Marshal a) = length (Marshal b))]
           @ (if length (Marshal a) = length (Marshal b)
              then snd (ConstantTimeCompare_obs (Marshal a) (Marshal b)) else [])
       \<and> (length (Marshal a) = length (Marshal b) \<longrightarrow>
            snd (ConstantTimeCompare_obs (Marshal a) (Marshal b)) =
              Branch False
              # concat (map (\<lambda>i. [Branch True, Index i]) [0..<length (Marshal a)])
              @ [Branch False])"
proof -
  have shape: "snd (KeysEqual_obs Marshal (Some p) (Some q)) =
      [Branch False, Branch False, Branch (length (Marshal p) = length (Marshal q))]
      @ (if length (Marshal p) = length (Marshal q)
         then snd (ConstantTimeCompare_obs (Marshal p) (Marshal q)) else [])" for p q
    by (simp add: Let_def split: prod.split)
  have body: "snd (ConstantTimeCompare_obs x y) =
      Branch False # concat (map (\<lambda>i. [Branch True, Index i]) [0..<length x]) @ [Branch False]"
    if "length x = length y" for x y
    using that by (simp add: ConstantTimeCompare_obs_eq)
  have "snd (KeysEqual_obs Marshal (Some a) (Some b)) =
      snd (KeysEqual_obs Marshal (Some a') (Some b'))"
    unfolding shape using assms by (simp add: body)
  with shape [of a b] body [of "Marshal a" "Marshal b"] show ?thesis
    by (simp only: KeysEqual_obs_result) simp
qed

theorem KeysEqual_constant_time_witness:
  "length [1, 2, 3 :: byte] = length [7, 7, 7 :: byte]
   \<and> length [1, 9, 3 :: byte] = length [7, 7, 7 :: byte]
   \<and> snd (KeysEqual_obs (\<lambda>k. k) (Some [1, 2, 3]) (Some [1, 9, 3])) =
       snd (KeysEqual_obs (\<lambda>k. k) (Some [7, 7, 7]) (Some [7, 7, 7]))
   \<and> \<not> fst (KeysEqual_obs (\<lambda>k. k) (Some [1, 2, 3]) (Some [1, 9, 3]))
   \<and> fst (KeysEqual_obs (\<lambda>k. k) (Some [7, 7, 7]) (Some [7, 7, 7]))
   \<and> snd (KeysEqual_obs (\<lambda>k. k) (Some [1, 2, 3]) (Some [1, 9, 3])) =
       [Branch False, Branch False, Branch True, Branch False,
        Branch True, Index 0, Branch True, Index 1, Branch True, Index 2, Branch False]"
  using KeysEqual_constant_time [of "\<lambda>k. k" "[1, 2, 3]" "[7, 7, 7]" "[1, 9, 3]" "[7, 7, 7]"]
    KeysEqual_constant_time [of "\<lambda>k. k" "[7, 7, 7]" "[7, 7, 7]" "[7, 7, 7]" "[7, 7, 7]"]
  by (simp add: KeysEqual_Some upt_conv_Cons del: KeysEqual.simps(3))

section \<open>The options loop\<close>

lemma options_loop_ok:
  "options_ok SetOption srv pre \<Longrightarrow>
   options_loop SetOption srv (pre @ rest) =
     (case options_loop SetOption (after_options SetOption srv pre) rest of
        (r, applied) \<Rightarrow> (r, pre @ applied))"
proof (induction pre arbitrary: srv)
  case Nil
  then show ?case by simp
next
  case (Cons opt pre)
  obtain srv' e where step: "SetOption srv opt = (srv', e)"
    by (cases "SetOption srv opt")
  with Cons.prems have "e = None" and "options_ok SetOption srv' pre"
    by simp_all
  with Cons.IH [of srv'] step show ?case
    by (simp split: prod.split)
qed

lemma options_loop_all_ok:
  "options_ok SetOption srv options \<Longrightarrow>
   options_loop SetOption srv options = (Inr (after_options SetOption srv options), options)"
  using options_loop_ok [of SetOption srv options "[]"] by simp

lemma options_loop_abort:
  assumes "options_ok SetOption srv pre"
    and "snd (SetOption (after_options SetOption srv pre) opt) = Some err"
  shows "options_loop SetOption srv (pre @ opt # post) = (Inl err, pre @ [opt])"
proof -
  obtain srv' where "SetOption (after_options SetOption srv pre) opt = (srv', Some err)"
    using assms(2) by (cases "SetOption (after_options SetOption srv pre) opt") simp
  then show ?thesis
    using options_loop_ok [OF assms(1), of "opt # post"] by simp
qed

lemma options_loop_Inr:
  "options_loop SetOption srv options = (Inr srv', applied) \<Longrightarrow>
   options_ok SetOption srv options"
proof (induction options arbitrary: srv applied)
  case Nil
  then show ?case by simp
next
  case (Cons opt options)
  then show ?case
    by (auto split: prod.splits option.splits)
qed

lemma options_loop_Inl:
  "options_loop SetOption srv options = (Inl err, applied) \<Longrightarrow>
   \<exists>pre opt post. options = pre @ opt # post \<and> options_ok SetOption srv pre
     \<and> snd (SetOption (after_options SetOption srv pre) opt) = Some err"
proof (induction options arbitrary: srv applied)
  case Nil
  then show ?case by simp
next
  case (Cons opt options)
  obtain srv' e where step: "SetOption srv opt = (srv', e)"
    by (cases "SetOption srv opt")
  show ?case
  proof (cases e)
    case None
    with Cons.prems step obtain applied' where
      "options_loop SetOption srv' options = (Inl err, applied')"
      by (auto split: prod.splits)
    from Cons.IH [OF this] obtain pre o' post where
      "options = pre @ o' # post" "options_ok SetOption srv' pre"
      "snd (SetOption (after_options SetOption srv' pre) o') = Some err"
      by blast
    with step None have "opt # options = (opt # pre) @ o' # post
        \<and> options_ok SetOption srv (opt # pre)
        \<and> snd (SetOption (after_options SetOption srv (opt # pre)) o') = Some err"
      by simp
    then show ?thesis by blast
  next
    case (Some e')
    with Cons.prems step have "e' = err"
      by simp
    with step Some have "opt # options = [] @ opt # options
        \<and> options_ok SetOption srv []
        \<and> snd (SetOption (after_options SetOption srv []) opt) = Some err"
      by simp
    then show ?thesis by blast
  qed
qed

lemma options_loop_not_Inr:
  "(\<forall>srv'. fst (options_loop SetOption srv options) \<noteq> Inr srv') \<Longrightarrow>
   \<exists>pre opt post err. options = pre @ opt # post \<and> options_ok SetOption srv pre
     \<and> snd (SetOption (after_options SetOption srv pre) opt) = Some err
     \<and> fst (options_loop SetOption srv options) = Inl err"
proof -
  assume no: "\<forall>srv'. fst (options_loop SetOption srv options) \<noteq> Inr srv'"
  obtain r applied where res: "options_loop SetOption srv options = (r, applied)"
    by (cases "options_loop SetOption srv options")
  with no obtain err where "r = Inl err"
    by (cases r) auto
  with res options_loop_Inl [of SetOption srv options err applied] show ?thesis
    by auto
qed

section \<open>Startup\<close>

text \<open>
  C3, as stated: an option's error is the only error that ends startup. That is so of
  \<^verbatim>\<open>Serve\<close>, which is given its listener. \<^verbatim>\<open>ListenAndServe\<close> returns what the
  server's \<^verbatim>\<open>ListenAndServe\<close> returns, and that method has to open the listener: with
  no option at all and an address that cannot be listened on, it returns the
  listener's error, and no connection is ever accepted.
\<close>

theorem ListenAndServe_listener_error:
  "ListenAndServe demo_SetOption (Server_ListenAndServe demo_listen demo_srvServe)
      () ''10.0.0.1:22'' ''h0'' [] =
     (Returns (Some ''address already in use''),
      [ListenAndServe_call \<lparr>Addr = ''10.0.0.1:22'', Handler = ''h0''\<rparr>])"
  by (simp add: ListenAndServe_def Server_ListenAndServe_def Server_literal_def
      demo_listen_def)

text \<open>
  C3, amended. The options passed to \<^verbatim>\<open>Serve\<close> or \<^verbatim>\<open>ListenAndServe\<close> are applied to
  the server in the order given. When an option returns an error, after the options
  before it returned none, that error is returned: no later option is applied and the
  serving method of the server is not called. When no option returns an error, every
  option has been applied, in order, and the serving method is called on the server
  they left. An option's error is the only way either function ends before it calls
  the serving method; it is not the only error of startup, since \<^verbatim>\<open>ListenAndServe\<close>
  also returns the error of a listener that cannot be opened.
\<close>

theorem options_in_order_abort_on_error:
  fixes SetOption :: "('h, 'z) Server_scheme \<Rightarrow> 'o \<Rightarrow> ('h, 'z) Server_scheme \<times> 'e option"
    and srvServe :: "('h, 'z) Server_scheme \<Rightarrow> 'l \<Rightarrow> 'e outcome"
    and srvListenAndServe :: "('h, 'z) Server_scheme \<Rightarrow> 'e outcome"
    and addr :: string
  shows
  "(\<forall>pre opt post err.
      options_ok SetOption (Server_literal [] handler zero) pre \<and>
      snd (SetOption (after_options SetOption (Server_literal [] handler zero) pre) opt) = Some err \<longrightarrow>
      Serve SetOption srvServe zero l handler (pre @ opt # post) =
        (Returns (Some err), map SetOption_call (pre @ [opt])))
   \<and> (\<forall>pre opt post err.
      options_ok SetOption (Server_literal addr handler zero) pre \<and>
      snd (SetOption (after_options SetOption (Server_literal addr handler zero) pre) opt) = Some err \<longrightarrow>
      ListenAndServe SetOption srvListenAndServe zero addr handler (pre @ opt # post) =
        (Returns (Some err), map SetOption_call (pre @ [opt])))
   \<and> (\<forall>options.
      options_ok SetOption (Server_literal [] handler zero) options \<longrightarrow>
      Serve SetOption srvServe zero l handler options =
        (srvServe (after_options SetOption (Server_literal [] handler zero) options) l,
         map SetOption_call options
         @ [Serve_call (after_options SetOption (Server_literal [] handler zero) options)]))
   \<and> (\<forall>options.
      options_ok SetOption (Server_literal addr handler zero) options \<longrightarrow>
      ListenAndServe SetOption srvListenAndServe zero addr handler options =
        (srvListenAndServe (after_options SetOption (Server_literal addr handler zero) options),
         map SetOption_call options
         @ [ListenAndServe_call (after_options SetOption (Server_literal addr handler zero) options)]))
   \<and> (\<forall>options.
      (\<forall>srv. Serve_call srv
          \<notin> set (snd (Serve SetOption srvServe zero l handler options))) \<longrightarrow>
      (\<exists>pre opt post err. options = pre @ opt # post
          \<and> options_ok SetOption (Server_literal [] handler zero) pre
          \<and> snd (SetOption (after_options SetOption (Server_literal [] handler zero) pre) opt) = Some err
          \<and> fst (Serve SetOption srvServe zero l handler options) = Returns (Some err)))
   \<and> (\<forall>options.
      (\<forall>srv. ListenAndServe_call srv
          \<notin> set (snd (ListenAndServe SetOption srvListenAndServe zero addr handler options))) \<longrightarrow>
      (\<exists>pre opt post err. options = pre @ opt # post
          \<and> options_ok SetOption (Server_literal addr handler zero) pre
          \<and> snd (SetOption (after_options SetOption (Server_literal addr handler zero) pre) opt) = Some err
          \<and> fst (ListenAndServe SetOption srvListenAndServe zero addr handler options) = Returns (Some err)))
   \<and> (\<forall>listen options err.
      options_ok SetOption (Server_literal addr handler zero) options \<and>
      listen (Addr (after_options SetOption (Server_literal addr handler zero) options)) = Inl err \<longrightarrow>
      ListenAndServe SetOption (Server_ListenAndServe listen srvServe) zero addr handler options =
        (Returns (Some err),
         map SetOption_call options
         @ [ListenAndServe_call (after_options SetOption (Server_literal addr handler zero) options)]))"
  (is "?A1 \<and> ?A2 \<and> ?S1 \<and> ?S2 \<and> ?O1 \<and> ?O2 \<and> ?B")
proof -
  have A1: ?A1
    by (simp add: Serve_def options_loop_abort)
  have A2: ?A2
    by (simp add: ListenAndServe_def options_loop_abort)
  have S1: ?S1
    by (simp add: Serve_def options_loop_all_ok)
  have S2: ?S2
    by (simp add: ListenAndServe_def options_loop_all_ok)
  have O1: ?O1
  proof (intro allI impI)
    fix options
    assume no: "\<forall>srv. Serve_call srv
      \<notin> set (snd (Serve SetOption srvServe zero l handler options))"
    have "\<forall>srv'. fst (options_loop SetOption (Server_literal [] handler zero) options) \<noteq> Inr srv'"
    proof (intro allI notI)
      fix srv'
      assume "fst (options_loop SetOption (Server_literal [] handler zero) options) = Inr srv'"
      then have "Serve_call srv' \<in> set (snd (Serve SetOption srvServe zero l handler options))"
        by (cases "options_loop SetOption (Server_literal [] handler zero) options")
          (simp add: Serve_def)
      with no show False by blast
    qed
    from options_loop_not_Inr [OF this] obtain pre opt post err where
      d: "options = pre @ opt # post"
        "options_ok SetOption (Server_literal [] handler zero) pre"
        "snd (SetOption (after_options SetOption (Server_literal [] handler zero) pre) opt) = Some err"
        "fst (options_loop SetOption (Server_literal [] handler zero) options) = Inl err"
      by blast
    from d(4) have "fst (Serve SetOption srvServe zero l handler options) = Returns (Some err)"
      by (cases "options_loop SetOption (Server_literal [] handler zero) options")
        (simp add: Serve_def)
    with d(1-3) show "\<exists>pre opt post err. options = pre @ opt # post
          \<and> options_ok SetOption (Server_literal [] handler zero) pre
          \<and> snd (SetOption (after_options SetOption (Server_literal [] handler zero) pre) opt) = Some err
          \<and> fst (Serve SetOption srvServe zero l handler options) = Returns (Some err)"
      by blast
  qed
  have O2: ?O2
  proof (intro allI impI)
    fix options
    let ?LAS = "ListenAndServe SetOption srvListenAndServe zero addr handler options"
    assume no: "\<forall>srv. ListenAndServe_call srv \<notin> set (snd ?LAS)"
    have "\<forall>srv'. fst (options_loop SetOption (Server_literal addr handler zero) options) \<noteq> Inr srv'"
    proof (intro allI notI)
      fix srv'
      assume "fst (options_loop SetOption (Server_literal addr handler zero) options) = Inr srv'"
      then have "ListenAndServe_call srv' \<in> set (snd ?LAS)"
        by (cases "options_loop SetOption (Server_literal addr handler zero) options")
          (simp add: ListenAndServe_def)
      with no show False by blast
    qed
    from options_loop_not_Inr [OF this] obtain pre opt post err where
      d: "options = pre @ opt # post"
        "options_ok SetOption (Server_literal addr handler zero) pre"
        "snd (SetOption (after_options SetOption (Server_literal addr handler zero) pre) opt) = Some err"
        "fst (options_loop SetOption (Server_literal addr handler zero) options) = Inl err"
      by blast
    from d(4) have "fst ?LAS = Returns (Some err)"
      by (cases "options_loop SetOption (Server_literal addr handler zero) options")
        (simp add: ListenAndServe_def)
    with d(1-3) show "\<exists>pre opt post err. options = pre @ opt # post
          \<and> options_ok SetOption (Server_literal addr handler zero) pre
          \<and> snd (SetOption (after_options SetOption (Server_literal addr handler zero) pre) opt) = Some err
          \<and> fst ?LAS = Returns (Some err)"
      by blast
  qed
  have B: ?B
    by (simp add: ListenAndServe_def options_loop_all_ok Server_ListenAndServe_def)
  from A1 A2 S1 S2 O1 O2 B show ?thesis
    by (intro conjI)
qed

theorem options_in_order_abort_on_error_witness:
  "options_ok demo_SetOption (Server_literal [] ''h0'' ()) [Some ''h1'']
   \<and> snd (demo_SetOption
          (after_options demo_SetOption (Server_literal [] ''h0'' ()) [Some ''h1'']) None)
       = Some ''invalid option''
   \<and> Serve demo_SetOption demo_srvServe () 7 ''h0'' ([Some ''h1''] @ None # [Some ''h2'']) =
       (Returns (Some ''invalid option''), map SetOption_call ([Some ''h1''] @ [None]))
   \<and> options_ok demo_SetOption (Server_literal '':22'' ''h0'' ()) [Some ''h1'', Some ''h2'']
   \<and> ListenAndServe demo_SetOption (Server_ListenAndServe demo_listen demo_srvServe) ()
        '':22'' ''h0'' [Some ''h1'', Some ''h2''] =
       (Returns None, [SetOption_call (Some ''h1''), SetOption_call (Some ''h2''),
          ListenAndServe_call \<lparr>Addr = '':22'', Handler = ''h2''\<rparr>])"
proof -
  note inst = options_in_order_abort_on_error
    [where SetOption = demo_SetOption and srvServe = demo_srvServe and zero = "()"
      and handler = "''h0''" and l = 7 and addr = "'':22''"
      and srvListenAndServe = "Server_ListenAndServe demo_listen demo_srvServe"]
  have ok1: "options_ok demo_SetOption (Server_literal [] ''h0'' ()) [Some ''h1'']"
    by (simp add: demo_SetOption_def)
  have bad: "snd (demo_SetOption
      (after_options demo_SetOption (Server_literal [] ''h0'' ()) [Some ''h1'']) None)
      = Some ''invalid option''"
    by (simp add: demo_SetOption_def)
  have ok2: "options_ok demo_SetOption (Server_literal '':22'' ''h0'' ())
      [Some ''h1'', Some ''h2'']"
    by (simp add: demo_SetOption_def)
  from inst ok1 bad have r1:
    "Serve demo_SetOption demo_srvServe () 7 ''h0'' ([Some ''h1''] @ None # [Some ''h2'']) =
       (Returns (Some ''invalid option''), map SetOption_call ([Some ''h1''] @ [None]))"
    by blast
  let ?srv = "after_options demo_SetOption (Server_literal '':22'' ''h0'' ())
      [Some ''h1'', Some ''h2'']"
  from inst ok2 have r2:
    "ListenAndServe demo_SetOption (Server_ListenAndServe demo_listen demo_srvServe) ()
        '':22'' ''h0'' [Some ''h1'', Some ''h2''] =
       (Server_ListenAndServe demo_listen demo_srvServe ?srv,
        map SetOption_call [Some ''h1'', Some ''h2''] @ [ListenAndServe_call ?srv])"
    by blast
  have srv: "?srv = \<lparr>Addr = '':22'', Handler = ''h2''\<rparr>"
    by (simp add: demo_SetOption_def Server_literal_def)
  have r2': "ListenAndServe demo_SetOption (Server_ListenAndServe demo_listen demo_srvServe) ()
        '':22'' ''h0'' [Some ''h1'', Some ''h2''] =
       (Returns None, [SetOption_call (Some ''h1''), SetOption_call (Some ''h2''),
          ListenAndServe_call \<lparr>Addr = '':22'', Handler = ''h2''\<rparr>])"
    unfolding r2 srv
    by (simp add: Server_ListenAndServe_def demo_listen_def demo_srvServe_def)
  from ok1 bad r1 ok2 r2' show ?thesis
    by (intro conjI)
qed

section \<open>ListenAndServe and Serve\<close>

lemma options_loop_not_ok:
  "\<not> options_ok SetOption srv options \<Longrightarrow>
   \<exists>err. fst (options_loop SetOption srv options) = Inl err"
proof -
  assume bad: "\<not> options_ok SetOption srv options"
  obtain r applied where res: "options_loop SetOption srv options = (r, applied)"
    by (cases "options_loop SetOption srv options")
  with bad options_loop_Inr [of SetOption srv options _ applied] show ?thesis
    by (cases r) auto
qed

lemma options_loop_Addr:
  assumes "\<forall>srv opt a. SetOption (srv\<lparr>Addr := a\<rparr>) opt =
      (case SetOption srv opt of (srv', e) \<Rightarrow> (srv'\<lparr>Addr := a\<rparr>, e))"
  shows "options_loop SetOption (srv\<lparr>Addr := a\<rparr>) options =
      (case options_loop SetOption srv options of
         (r, applied) \<Rightarrow> (map_sum id (\<lambda>srv'. srv'\<lparr>Addr := a\<rparr>) r, applied))"
proof (induction options arbitrary: srv)
  case Nil
  then show ?case by simp
next
  case (Cons opt options)
  obtain srv' e where step: "SetOption srv opt = (srv', e)"
    by (cases "SetOption srv opt")
  with assms have step': "SetOption (srv\<lparr>Addr := a\<rparr>) opt = (srv'\<lparr>Addr := a\<rparr>, e)"
    by simp
  show ?case
    using step step' Cons.IH [of srv']
    by (cases e) (simp_all split: prod.split)
qed

lemma Server_literal_Addr:
  "Server_literal addr handler zero = (Server_literal [] handler zero)\<lparr>Addr := addr\<rparr>"
  by (simp add: Server_literal_def)

text \<open>
  C8, as stated: \<^verbatim>\<open>ListenAndServe\<close> opens a listener on \<open>addr\<close> and then does what
  \<^verbatim>\<open>Serve\<close> does with the handler and the options, for every address, handler and
  option list. The code applies the options first and listens afterwards, on the
  address the options left in the server. With an invalid option and an address that
  cannot be listened on, the code returns the option's error, where listening first
  returns the listener's; with an option that sets another address, the code listens
  there and not on \<open>addr\<close>.
\<close>

theorem ListenAndServe_not_listen_then_Serve:
  "fst (ListenAndServe demo_SetOption (Server_ListenAndServe demo_listen demo_srvServe)
          () ''10.0.0.1:22'' ''h0'' [None])
     = Returns (Some ''invalid option'')
   \<and> ListenAndServe_spec demo_listen demo_SetOption demo_srvServe
          () ''10.0.0.1:22'' ''h0'' [None]
     = Returns (Some ''address already in use'')
   \<and> fst (ListenAndServe demo_SetAddr (Server_ListenAndServe demo_listen demo_srvServe)
          () '':22'' ''h0'' [''10.0.0.1:22''])
     = Returns (Some ''address already in use'')
   \<and> ListenAndServe_spec demo_listen demo_SetAddr demo_srvServe
          () '':22'' ''h0'' [''10.0.0.1:22'']
     = Returns None"
  by (simp add: ListenAndServe_def ListenAndServe_spec_def Serve_def Server_literal_def
      Server_ListenAndServe_def demo_SetOption_def demo_SetAddr_def demo_listen_def
      demo_srvServe_def)

text \<open>
  C8, amended. \<^verbatim>\<open>ListenAndServe\<close> applies the options first, to a server whose
  address is \<open>addr\<close>. When an option returns an error it returns one and does not call
  the server's \<^verbatim>\<open>ListenAndServe\<close>, so no listener is opened. When none does, it opens
  the listener on the address of the server as the options left it, and serves on it.
  When no option reads or changes the address, serving does not depend on it and the
  listener on \<open>addr\<close> can be opened, it returns what opening a listener on \<open>addr\<close> and
  calling \<^verbatim>\<open>Serve\<close> with the handler and the options returns.
\<close>

theorem ListenAndServe_options_then_listen:
  fixes SetOption :: "('h, 'z) Server_scheme \<Rightarrow> 'o \<Rightarrow> ('h, 'z) Server_scheme \<times> 'e option"
    and srvServe :: "('h, 'z) Server_scheme \<Rightarrow> 'l \<Rightarrow> 'e outcome"
    and listen :: "string \<Rightarrow> 'e + 'l"
  shows
  "(\<not> options_ok SetOption (Server_literal addr handler zero) options \<longrightarrow>
      (\<exists>err. fst (ListenAndServe SetOption (Server_ListenAndServe listen srvServe)
                 zero addr handler options) = Returns (Some err))
      \<and> (\<forall>srv. ListenAndServe_call srv \<notin> set (snd (ListenAndServe SetOption
                 (Server_ListenAndServe listen srvServe) zero addr handler options))))
   \<and> (options_ok SetOption (Server_literal addr handler zero) options \<longrightarrow>
      fst (ListenAndServe SetOption (Server_ListenAndServe listen srvServe)
             zero addr handler options) =
        (case listen (Addr (after_options SetOption (Server_literal addr handler zero) options)) of
           Inl err \<Rightarrow> Returns (Some err)
         | Inr l \<Rightarrow> srvServe (after_options SetOption (Server_literal addr handler zero) options) l))
   \<and> ((\<forall>srv opt a. SetOption (srv\<lparr>Addr := a\<rparr>) opt =
          (case SetOption srv opt of (srv', e) \<Rightarrow> (srv'\<lparr>Addr := a\<rparr>, e)))
      \<and> (\<forall>srv a l. srvServe (srv\<lparr>Addr := a\<rparr>) l = srvServe srv l)
      \<and> (\<exists>l. listen addr = Inr l) \<longrightarrow>
      fst (ListenAndServe SetOption (Server_ListenAndServe listen srvServe)
             zero addr handler options) =
        ListenAndServe_spec listen SetOption srvServe zero addr handler options)"
  (is "?abort \<and> ?listen \<and> ?same")
proof -
  let ?srv0 = "Server_literal addr handler zero"
  let ?LAS = "ListenAndServe SetOption (Server_ListenAndServe listen srvServe)
                 zero addr handler options"
  have abort: ?abort
  proof
    assume "\<not> options_ok SetOption ?srv0 options"
    from options_loop_not_ok [OF this] obtain err applied where
      "options_loop SetOption ?srv0 options = (Inl err, applied)"
      by (cases "options_loop SetOption ?srv0 options") auto
    then have "?LAS = (Returns (Some err), map SetOption_call applied)"
      by (simp add: ListenAndServe_def)
    then show "(\<exists>err. fst ?LAS = Returns (Some err))
        \<and> (\<forall>srv. ListenAndServe_call srv \<notin> set (snd ?LAS))"
      by auto
  qed
  have listen: ?listen
    by (simp add: ListenAndServe_def options_loop_all_ok Server_ListenAndServe_def)
  have same: ?same
  proof
    assume h: "(\<forall>srv opt a. SetOption (srv\<lparr>Addr := a\<rparr>) opt =
          (case SetOption srv opt of (srv', e) \<Rightarrow> (srv'\<lparr>Addr := a\<rparr>, e)))
      \<and> (\<forall>srv a l. srvServe (srv\<lparr>Addr := a\<rparr>) l = srvServe srv l)
      \<and> (\<exists>l. listen addr = Inr l)"
    then obtain l where l: "listen addr = Inr l"
      by blast
    from h have opt: "\<forall>srv opt a. SetOption (srv\<lparr>Addr := a\<rparr>) opt =
          (case SetOption srv opt of (srv', e) \<Rightarrow> (srv'\<lparr>Addr := a\<rparr>, e))"
      by blast
    from h have serve: "srvServe (srv\<lparr>Addr := a\<rparr>) l' = srvServe srv l'" for srv a l'
      by blast
    obtain r applied where
      res: "options_loop SetOption (Server_literal [] handler zero) options = (r, applied)"
      by (cases "options_loop SetOption (Server_literal [] handler zero) options")
    have res': "options_loop SetOption ?srv0 options =
        (map_sum id (\<lambda>srv'. srv'\<lparr>Addr := addr\<rparr>) r, applied)"
      using options_loop_Addr [OF opt, where srv = "Server_literal [] handler zero"
          and a = addr and options = options] res
      by (simp add: Server_literal_Addr [of addr])
    show "fst ?LAS = ListenAndServe_spec listen SetOption srvServe zero addr handler options"
    proof (cases r)
      case (Inl err)
      with res res' l show ?thesis
        by (simp add: ListenAndServe_def ListenAndServe_spec_def Serve_def)
    next
      case (Inr srv')
      with res res' l serve show ?thesis
        by (simp add: ListenAndServe_def ListenAndServe_spec_def Serve_def
            Server_ListenAndServe_def)
    qed
  qed
  from abort listen same show ?thesis
    by (intro conjI)
qed

theorem ListenAndServe_options_then_listen_witness:
  "(\<forall>srv opt a. demo_SetOption (srv\<lparr>Addr := a\<rparr>) opt =
      (case demo_SetOption srv opt of (srv', e) \<Rightarrow> (srv'\<lparr>Addr := a\<rparr>, e)))
   \<and> (\<forall>srv a l. demo_srvServe (srv\<lparr>Addr := a\<rparr>) l = demo_srvServe srv l)
   \<and> (\<exists>l. demo_listen '':22'' = Inr l)
   \<and> fst (ListenAndServe demo_SetOption (Server_ListenAndServe demo_listen demo_srvServe)
          () '':22'' ''h0'' [Some ''h1''])
     = ListenAndServe_spec demo_listen demo_SetOption demo_srvServe () '':22'' ''h0'' [Some ''h1'']
   \<and> ListenAndServe_spec demo_listen demo_SetOption demo_srvServe () '':22'' ''h0'' [Some ''h1'']
     = Returns None
   \<and> \<not> options_ok demo_SetOption (Server_literal ''10.0.0.1:22'' ''h0'' ()) [None]
   \<and> (\<forall>srv. ListenAndServe_call srv \<notin> set (snd (ListenAndServe demo_SetOption
          (Server_ListenAndServe demo_listen demo_srvServe) () ''10.0.0.1:22'' ''h0'' [None])))"
proof -
  have h1: "\<forall>srv opt a. demo_SetOption (srv\<lparr>Addr := a\<rparr>) opt =
      (case demo_SetOption srv opt of (srv', e) \<Rightarrow> (srv'\<lparr>Addr := a\<rparr>, e))"
    by (simp add: demo_SetOption_def split: option.split)
  have h2: "\<forall>srv a l. demo_srvServe (srv\<lparr>Addr := a\<rparr>) l = demo_srvServe srv l"
    by (simp add: demo_srvServe_def)
  have h3: "\<exists>l. demo_listen '':22'' = Inr l"
    by (simp add: demo_listen_def)
  from ListenAndServe_options_then_listen
    [where SetOption = demo_SetOption and srvServe = demo_srvServe and listen = demo_listen
      and addr = "'':22''" and handler = "''h0''" and zero = "()" and options = "[Some ''h1'']"]
    h1 h2 h3
  have eq: "fst (ListenAndServe demo_SetOption (Server_ListenAndServe demo_listen demo_srvServe)
      () '':22'' ''h0'' [Some ''h1''])
      = ListenAndServe_spec demo_listen demo_SetOption demo_srvServe () '':22'' ''h0'' [Some ''h1'']"
    by blast
  have val: "ListenAndServe_spec demo_listen demo_SetOption demo_srvServe () '':22'' ''h0''
      [Some ''h1''] = Returns None"
    by (simp add: ListenAndServe_spec_def Serve_def Server_literal_def demo_SetOption_def
        demo_listen_def demo_srvServe_def)
  have bad: "\<not> options_ok demo_SetOption (Server_literal ''10.0.0.1:22'' ''h0'' ()) [None]"
    by (simp add: demo_SetOption_def)
  from ListenAndServe_options_then_listen
    [where SetOption = demo_SetOption and srvServe = demo_srvServe and listen = demo_listen
      and addr = "''10.0.0.1:22''" and handler = "''h0''" and zero = "()" and options = "[None]"]
    bad
  have none: "\<forall>srv. ListenAndServe_call srv \<notin> set (snd (ListenAndServe demo_SetOption
      (Server_ListenAndServe demo_listen demo_srvServe) () ''10.0.0.1:22'' ''h0'' [None]))"
    by blast
  from h1 h2 h3 eq val bad none show ?thesis
    by (intro conjI)
qed

section \<open>Handle\<close>


section \<open>The declared data\<close>

text \<open>
  C4, as stated: the signal vocabulary is a closed enumeration. \<^verbatim>\<open>Signal\<close> is a
  string type, and Go lets any string be converted to it: \<^verbatim>\<open>Signal("WINCH")\<close> is a
  signal that is none of the declared constants.
\<close>

theorem Signal_not_closed:
  "(''WINCH'' :: Signal) \<notin> set Signals"
  by (simp add: Signals_def SIGABRT_def SIGALRM_def SIGFPE_def SIGHUP_def SIGILL_def
      SIGINT_def SIGKILL_def SIGPIPE_def SIGQUIT_def SIGSEGV_def SIGTERM_def SIGUSR1_def
      SIGUSR2_def)

text \<open>
  C4, amended. The declared signal constants are exactly the thirteen tokens ABRT,
  ALRM, FPE, HUP, ILL, INT, KILL, PIPE, QUIT, SEGV, TERM, USR1, USR2: each constant's
  value is its token and no two are the same. The type itself is not closed: there
  are infinitely many signals that are none of the thirteen.
\<close>

theorem Signal_vocabulary:
  "Signals = [''ABRT'', ''ALRM'', ''FPE'', ''HUP'', ''ILL'', ''INT'', ''KILL'',
              ''PIPE'', ''QUIT'', ''SEGV'', ''TERM'', ''USR1'', ''USR2'']
   \<and> length Signals = 13 \<and> distinct Signals
   \<and> infinite (UNIV - set Signals)"
proof -
  have tokens: "Signals = [''ABRT'', ''ALRM'', ''FPE'', ''HUP'', ''ILL'', ''INT'', ''KILL'',
      ''PIPE'', ''QUIT'', ''SEGV'', ''TERM'', ''USR1'', ''USR2'']"
    by (simp add: Signals_def SIGABRT_def SIGALRM_def SIGFPE_def SIGHUP_def SIGILL_def
        SIGINT_def SIGKILL_def SIGPIPE_def SIGQUIT_def SIGSEGV_def SIGTERM_def SIGUSR1_def
        SIGUSR2_def)
  have count: "length Signals = 13" and apart: "distinct Signals"
    unfolding tokens by simp_all
  have "infinite (UNIV :: Signal set)"
    by (rule infinite_UNIV_listI)
  then have "infinite (UNIV - set Signals)"
    by (rule Diff_infinite_finite [OF finite_set])
  with tokens count apart show ?thesis
    by (intro conjI)
qed

text \<open>
  C5, as stated: a \<^verbatim>\<open>Pty\<close> holds a window and a terminal type string. The \<^verbatim>\<open>Pty\<close>
  of ssh.go has the single field \<^verbatim>\<open>Window\<close>: nothing read from a \<^verbatim>\<open>Pty\<close> can be a
  terminal type chosen freely beside the window, since two values with the window
  80 by 24 would have to differ, one for \<^verbatim>\<open>xterm\<close> and one for \<^verbatim>\<open>vt100\<close>.
\<close>

theorem Pty_without_term:
  "\<not> (\<exists>termtype :: Pty \<Rightarrow> string. \<forall>w t. \<exists>p. Window p = w \<and> termtype p = t)"
proof
  assume "\<exists>termtype :: Pty \<Rightarrow> string. \<forall>w t. \<exists>p. Window p = w \<and> termtype p = t"
  then obtain termtype :: "Pty \<Rightarrow> string" where
    all: "\<forall>w t. \<exists>p. Window p = w \<and> termtype p = t"
    by blast
  let ?w = "\<lparr>Width = 80, Height = 24\<rparr>"
  from all obtain p where p: "Window p = ?w" "termtype p = ''xterm''"
    by blast
  from all obtain q where q: "Window q = ?w" "termtype q = ''vt100''"
    by blast
  from p(1) q(1) have "p = q"
    by simp
  with p(2) q(2) show False
    by simp
qed

text \<open>
  C5, amended. A \<^verbatim>\<open>Pty\<close> value consists of its window alone: it is the record made
  of its \<^verbatim>\<open>Window\<close>, and two of them are the same exactly when their windows are. No
  terminal type is held in it.
\<close>

theorem Pty_is_its_Window:
  "(p :: Pty) = \<lparr>Window = Window p\<rparr> \<and> (p = q \<longleftrightarrow> Window p = Window q)"
  by auto

end
